theory Spec2Isabelle
  imports Complex_Main "HOL-Library.AList"
begin

section \<open>The document processor of \<^verbatim>\<open>document_processor_online.py\<close>\<close>

text \<open>
  A shallow embedding of the class \<^verbatim>\<open>DocumentProcessorOnline\<close>: text cleaning, chunking,
  tokenisation, TF-IDF, cosine similarity, search, and export/import of the store.

  Conventions of the embedding.
  \<^item> A Python \<^verbatim>\<open>str\<close> is a \<open>string\<close>, one \<open>char\<close> per code point, so the texts covered are
    those of code points 0 to 255 (Latin-1, which holds every character of the Portuguese
    stop-word list of the source). The character classes below are CPython's on that range.
  \<^item> A Python \<^verbatim>\<open>float\<close> is a \<open>real\<close> and its arithmetic is exact: rounding, overflow and
    the order of a summation are not modelled. The statements about weights and
    similarities are therefore only about what rounding leaves as it is: which keys a
    vector has, whether a value is zero, its sign, and the order and number of results.
  \<^item> A Python \<^verbatim>\<open>int\<close> is an \<open>int\<close>; lengths and counts are \<open>nat\<close>.
  \<^item> A Python \<^verbatim>\<open>dict\<close> is an association list in insertion order, written only through
    \<open>AList.update\<close> (an existing key keeps its place, a new key goes to the end) and read
    through \<open>map_of\<close>.
  \<^item> A loop that may run forever is a \<^theory_text>\<open>partial_function\<close> in the option monad: the
    value \<open>None\<close> means that the call does not return.
\<close>

subsection \<open>Characters and strings\<close>

text \<open>\<^verbatim>\<open>str.isspace\<close>, the class \<^verbatim>\<open>\s\<close> of \<^verbatim>\<open>re\<close>, and the separators of
  \<^verbatim>\<open>str.split()\<close> and \<^verbatim>\<open>str.strip()\<close>.\<close>

definition is_space :: "char \<Rightarrow> bool" where
  "is_space c =
     (let n = (of_char c :: nat)
      in (9 \<le> n \<and> n \<le> 13) \<or> (28 \<le> n \<and> n \<le> 32) \<or> n = 133 \<or> n = 160)"

text \<open>The class \<^verbatim>\<open>\w\<close> of \<^verbatim>\<open>re\<close> on a \<^verbatim>\<open>str\<close> pattern: alphanumeric or underscore.\<close>

definition is_word :: "char \<Rightarrow> bool" where
  "is_word c =
     (let n = (of_char c :: nat)
      in (48 \<le> n \<and> n \<le> 57) \<or> (65 \<le> n \<and> n \<le> 90) \<or> n = 95 \<or> (97 \<le> n \<and> n \<le> 122)
         \<or> n = 170 \<or> n = 178 \<or> n = 179 \<or> n = 181 \<or> n = 185 \<or> n = 186
         \<or> (188 \<le> n \<and> n \<le> 190) \<or> (192 \<le> n \<and> n \<le> 214) \<or> (216 \<le> n \<and> n \<le> 246)
         \<or> (248 \<le> n \<and> n \<le> 255))"

text \<open>\<^verbatim>\<open>str.lower()\<close>, character by character.\<close>

definition lower_char :: "char \<Rightarrow> char" where
  "lower_char c =
     (let n = (of_char c :: nat)
      in if (65 \<le> n \<and> n \<le> 90) \<or> (192 \<le> n \<and> n \<le> 214) \<or> (216 \<le> n \<and> n \<le> 222)
         then char_of (n + 32) else c)"

definition lower :: "string \<Rightarrow> string" where
  "lower s = map lower_char s"

text \<open>\<^verbatim>\<open>s.strip()\<close>: white space removed at both ends.\<close>

definition strip :: "string \<Rightarrow> string" where
  "strip s = rev (dropWhile is_space (rev (dropWhile is_space s)))"

text \<open>\<^verbatim>\<open>s.split()\<close>: the maximal runs of characters that are not white space.
  The first argument is the word being read.\<close>

fun split_from :: "string \<Rightarrow> string \<Rightarrow> string list" where
  "split_from cur [] = (if cur = [] then [] else [cur])"
| "split_from cur (c # cs) =
     (if is_space c then (if cur = [] then split_from [] cs else cur # split_from [] cs)
      else split_from (cur @ [c]) cs)"

definition split :: "string \<Rightarrow> string list" where
  "split s = split_from [] s"

text \<open>\<^verbatim>\<open>s.split(sep)\<close> for a one-character separator: every occurrence cuts, empty
  pieces are kept, and the empty string gives one empty piece.\<close>

fun split_on :: "char \<Rightarrow> string \<Rightarrow> string list" where
  "split_on sep [] = [[]]"
| "split_on sep (c # cs) =
     (if c = sep then [] # split_on sep cs
      else (case split_on sep cs of
              [] \<Rightarrow> [[c]]
            | l # ls \<Rightarrow> (c # l) # ls))"

text \<open>\<^verbatim>\<open>sep.join(xs)\<close>.\<close>

fun join :: "string \<Rightarrow> string list \<Rightarrow> string" where
  "join sep [] = []"
| "join sep [x] = x"
| "join sep (x # y # ys) = x @ sep @ join sep (y # ys)"

text \<open>The slice \<^verbatim>\<open>xs[i:j]\<close>: a negative bound counts from the end, and both bounds are
  clamped to the list.\<close>

definition slice_bound :: "nat \<Rightarrow> int \<Rightarrow> nat" where
  "slice_bound n i = (if i < 0 then nat (max (i + int n) 0) else min (nat i) n)"

definition slice :: "'a list \<Rightarrow> int \<Rightarrow> int \<Rightarrow> 'a list" where
  "slice xs i j =
     (let lo = slice_bound (length xs) i; hi = slice_bound (length xs) j
      in take (hi - lo) (drop lo xs))"

subsection \<open>\<^verbatim>\<open>clean_text\<close>\<close>

text \<open>The characters kept by \<^verbatim>\<open>re.sub(r'[^\w\s\-\.\,\;\:\!\?\(\)]', ' ', text)\<close>.\<close>

definition kept_char :: "char \<Rightarrow> bool" where
  "kept_char c = (is_word c \<or> is_space c \<or> c \<in> set ''-.,;:!?()'')"

text \<open>\<^verbatim>\<open>re.sub(r'\s+', ' ', text)\<close>: every maximal run of white space becomes one space.
  The flag says that the previous character was white space.\<close>

fun collapse_from :: "bool \<Rightarrow> string \<Rightarrow> string" where
  "collapse_from in_run [] = []"
| "collapse_from in_run (c # cs) =
     (if is_space c then (if in_run then collapse_from True cs
                          else CHR '' '' # collapse_from True cs)
      else c # collapse_from False cs)"

definition collapse_spaces :: "string \<Rightarrow> string" where
  "collapse_spaces s = collapse_from False s"

definition clean_text :: "string \<Rightarrow> string" where
  "clean_text text =
     (let text1 = map (\<lambda>c. if kept_char c then c else CHR '' '') text;
          text2 = collapse_spaces text1;
          lines = split_on (CHR 0x0A) text2;
          cleaned_lines = map strip (filter (\<lambda>line. length (strip line) > 10) lines)
      in strip (join [CHR 0x0A] cleaned_lines))"

subsection \<open>\<^verbatim>\<open>split_into_chunks\<close>\<close>

text \<open>The \<^verbatim>\<open>while\<close> loop of \<^verbatim>\<open>split_into_chunks\<close>, entered with \<open>start = 0\<close> and no chunk.
  It leaves through the loop condition or through the \<^verbatim>\<open>break\<close>; when it does neither the
  value is \<open>None\<close>.\<close>

partial_function (option) split_loop ::
  "string list \<Rightarrow> int \<Rightarrow> int \<Rightarrow> int \<Rightarrow> string list \<Rightarrow> string list option" where
  "split_loop words chunk_size overlap start chunks =
     (if start < int (length words) then
        (let end_pos = min (start + chunk_size) (int (length words));
             chunk = join '' '' (slice words start end_pos);
             chunks' = (if length (strip chunk) > 50 then chunks @ [strip chunk] else chunks);
             start' = end_pos - overlap
         in if start' \<ge> int (length words) then Some chunks'
            else split_loop words chunk_size overlap start' chunks')
      else Some chunks)"

definition split_into_chunks :: "string \<Rightarrow> int \<Rightarrow> int \<Rightarrow> string list option" where
  "split_into_chunks text chunk_size overlap =
     (let words = split text
      in if int (length words) \<le> chunk_size then Some [text]
         else split_loop words chunk_size overlap 0 [])"

declare split_loop.simps [code]

text \<open>The windows that the loop reads when it advances by \<open>n\<close> words at a time: the words
  cut into consecutive pieces of \<open>n\<close> words, the last one possibly shorter. It serves to
  state what the loop returns.\<close>

fun windows :: "nat \<Rightarrow> 'a list \<Rightarrow> 'a list list" where
  "windows n xs = (if n = 0 \<or> xs = [] then [] else take n xs # windows n (drop n xs))"

declare windows.simps [simp del]

text \<open>A word as \<open>split\<close> returns it: not empty and free of white space.\<close>

definition word_ok :: "string \<Rightarrow> bool" where
  "word_ok w = (w \<noteq> [] \<and> (\<forall>c\<in>set w. \<not> is_space c))"

text \<open>What the loop appends for a list of windows: the joined window, when it has more than
  50 characters.\<close>

definition emitted :: "string list list \<Rightarrow> string list" where
  "emitted wss =
     map (\<lambda>w. strip (join '' '' w)) (filter (\<lambda>w. length (strip (join '' '' w)) > 50) wss)"

subsection \<open>\<^verbatim>\<open>tokenize\<close>\<close>

text \<open>The attribute \<^verbatim>\<open>self.stop_words\<close>, set once by the constructor and never assigned
  again. The source writes it as a set literal, some words twice.\<close>

definition stop_words :: "string list" where
  "stop_words = [
    ''a'', ''ao'', ''aos'', ''as'', [CHR 0xE0], [CHR 0xE0] @ ''s'', ''ante'',
    ''ap'' @ [CHR 0xF3] @ ''s'', ''at'' @ [CHR 0xE9], ''com'', ''contra'', ''de'',
    ''desde'', ''em'', ''entre'', ''para'', ''per'', ''perante'', ''por'', ''sem'',
    ''sob'', ''sobre'', ''tr'' @ [CHR 0xE1] @ ''s'', ''e'', ''mas'', ''nem'', ''ou'',
    ''logo'', ''pois'', ''por'' @ [CHR 0xE9] @ ''m'', ''contudo'', ''todavia'',
    ''entretanto'', ''sen'' @ [CHR 0xE3] @ ''o'', ''que'', ''se'', ''como'', ''quando'',
    ''onde'', ''porque'', ''porqu'' @ [CHR 0xEA], ''qual'', ''quais'', ''quanto'',
    ''quantos'', ''quanta'', ''quantas'', ''quem'', ''o'', ''os'', ''a'', ''as'', ''um'',
    ''uma'', ''uns'', ''umas'', ''este'', ''esta'', ''estes'', ''estas'', ''esse'',
    ''essa'', ''esses'', ''essas'', ''aquele'', ''aquela'', ''aqueles'', ''aquelas'',
    ''isto'', ''isso'', ''aquilo'', ''eu'', ''tu'', ''ele'', ''ela'',
    ''n'' @ [CHR 0xF3] @ ''s'', ''v'' @ [CHR 0xF3] @ ''s'', ''eles'', ''elas'', ''me'',
    ''mim'', ''comigo'', ''te'', ''ti'', ''contigo'', ''se'', ''si'', ''consigo'', ''nos'',
    ''conosco'', ''vos'', ''convosco'', ''lhe'', ''lhes'', ''meu'', ''minha'', ''meus'',
    ''minhas'', ''teu'', ''tua'', ''teus'', ''tuas'', ''seu'', ''sua'', ''seus'', ''suas'',
    ''nosso'', ''nossa'', ''nossos'', ''nossas'', ''vosso'', ''vossa'', ''vossos'',
    ''vossas'', ''do'', ''da'', ''dos'', ''das'', ''no'', ''na'', ''nos'', ''nas'',
    ''pelo'', ''pela'', ''pelos'', ''pelas'', ''num'', ''numa'', ''nuns'', ''numas'',
    ''dum'', ''duma'', ''duns'', ''dumas'', ''ser'', ''estar'', ''ter'', ''haver'', ''ir'',
    ''vir'', ''dar'', ''fazer'', ''dizer'', ''ver'', ''saber'', ''poder'', ''querer'',
    ''ficar'', ''parecer'', ''deixar'', ''passar'', ''chegar'', ''trazer'', ''levar'',
    ''encontrar'', ''sentir'', ''continuar'', ''come'' @ [CHR 0xE7] @ ''ar'', ''acabar'',
    ''entrar'', ''sair'', ''voltar'', ''muito'', ''mais'', ''menos'', ''bem'', ''mal'',
    ''melhor'', ''pior'', ''maior'', ''menor'', ''grande'', ''pequeno'', ''novo'',
    ''velho'', ''primeiro'', [CHR 0xFA] @ ''ltimo'', ''outro'', ''mesmo'', ''todo'',
    ''cada'', ''algum'', ''nenhum'', ''qualquer'', ''certo'', ''tanto'', ''quanto'',
    ''pouco'', ''bastante'', ''demais'', ''j'' @ [CHR 0xE1], ''ainda'', ''sempre'',
    ''nunca'', ''hoje'', ''ontem'', ''amanh'' @ [CHR 0xE3], ''agora'', ''depois'',
    ''antes'', ''aqui'', ''ali'', ''l'' @ [CHR 0xE1], ''a'' @ [CHR 0xED],
    ''c'' @ [CHR 0xE1], ''dentro'', ''fora'', ''cima'', ''baixo'', ''perto'', ''longe'',
    ''sim'', ''n'' @ [CHR 0xE3] @ ''o'', ''talvez'', ''tamb'' @ [CHR 0xE9] @ ''m'',
    ''s'' @ [CHR 0xF3], ''apenas'', ''inclusive'', ''at'' @ [CHR 0xE9], ''mesmo'']"

text \<open>\<^verbatim>\<open>re.findall(r'\b\w+\b', s)\<close>: the maximal runs of word characters, from left to
  right. The first argument is the run being read.\<close>

fun word_runs_from :: "string \<Rightarrow> string \<Rightarrow> string list" where
  "word_runs_from cur [] = (if cur = [] then [] else [cur])"
| "word_runs_from cur (c # cs) =
     (if is_word c then word_runs_from (cur @ [c]) cs
      else (if cur = [] then word_runs_from [] cs else cur # word_runs_from [] cs))"

definition tokenize :: "string \<Rightarrow> string list" where
  "tokenize text =
     (let words = word_runs_from [] (lower text)
      in filter (\<lambda>word. length word > 2 \<and> word \<notin> set stop_words) words)"

subsection \<open>Term frequency and inverse document frequency\<close>

type_synonym 'v dict = "(string \<times> 'v) list"

text \<open>The dictionary obtained from the empty one by the assignments \<^verbatim>\<open>d[k] = v\<close>, one for
  each item of the list in turn.\<close>

definition dict_of_items :: "(string \<times> 'v) list \<Rightarrow> 'v dict" where
  "dict_of_items kvs = fold (\<lambda>(k, v) d. AList.update k v d) kvs []"

text \<open>\<^verbatim>\<open>Counter(tokens)\<close>: each token counted, the keys in the order of first occurrence.\<close>

definition counter :: "string list \<Rightarrow> nat dict" where
  "counter tokens =
     fold (\<lambda>t d. AList.update t (case map_of d t of None \<Rightarrow> 1 | Some n \<Rightarrow> n + 1) d) tokens []"

definition calculate_tf :: "string list \<Rightarrow> real dict" where
  "calculate_tf tokens =
     (let total_tokens = length tokens
      in if total_tokens = 0 then []
         else dict_of_items
                (map (\<lambda>(token, count). (token, real count / real total_tokens))
                   (counter tokens)))"

text \<open>The order in which \<^verbatim>\<open>for token in set(chunk_tokens)\<close> visits the distinct tokens. Python
  leaves it open; the model visits them in list order. Only the identifiers of the
  vocabulary and the order of the keys of a dictionary depend on it, and no statement
  below is about either.\<close>

definition set_iter :: "string list \<Rightarrow> string list" where
  "set_iter tokens = remdups tokens"

text \<open>\<^verbatim>\<open>term_chunk_count[token] += 1\<close> on a \<^verbatim>\<open>defaultdict(int)\<close>.\<close>

definition increment :: "string \<Rightarrow> nat dict \<Rightarrow> nat dict" where
  "increment token d =
     AList.update token ((case map_of d token of None \<Rightarrow> 0 | Some n \<Rightarrow> n) + 1) d"

definition term_chunk_count :: "string list list \<Rightarrow> nat dict" where
  "term_chunk_count all_chunks_tokens =
     fold (\<lambda>chunk_tokens d. fold increment (set_iter chunk_tokens) d) all_chunks_tokens []"

definition calculate_idf :: "string list list \<Rightarrow> real dict" where
  "calculate_idf all_chunks_tokens =
     (let total_chunks = length all_chunks_tokens
      in if total_chunks = 0 then []
         else dict_of_items
                (map (\<lambda>(term, chunk_count). (term, ln (real total_chunks / real chunk_count)))
                   (term_chunk_count all_chunks_tokens)))"

text \<open>The count that a dictionary of counts holds for a token, zero when the token is not a
  key.\<close>

definition count_of :: "nat dict \<Rightarrow> string \<Rightarrow> nat" where
  "count_of d t = (case map_of d t of None \<Rightarrow> 0 | Some n \<Rightarrow> n)"

text \<open>The number of chunks that hold a token, for the statements about
  \<open>calculate_idf\<close>.\<close>

definition document_frequency :: "string list list \<Rightarrow> string \<Rightarrow> nat" where
  "document_frequency all_chunks_tokens token =
     length (filter (\<lambda>chunk_tokens. token \<in> set chunk_tokens) all_chunks_tokens)"

subsection \<open>TF-IDF vectors\<close>

text \<open>The loop that builds a TF-IDF vector from term frequencies, written twice in the
  source: for each chunk in \<^verbatim>\<open>calculate_tfidf_matrix\<close> and for the query in
  \<^verbatim>\<open>search_similar_chunks\<close>. A token without an IDF score is skipped.\<close>

definition tfidf_vector :: "real dict \<Rightarrow> real dict \<Rightarrow> real dict" where
  "tfidf_vector idf tf_scores =
     fold (\<lambda>(token, tf_score) v.
             (case map_of idf token of
                Some idf_score \<Rightarrow> AList.update token (tf_score * idf_score) v
              | None \<Rightarrow> v))
          tf_scores []"

text \<open>The vocabulary loop: a token not seen before gets the next index.\<close>

definition add_vocabulary :: "string \<Rightarrow> nat dict \<times> nat \<Rightarrow> nat dict \<times> nat" where
  "add_vocabulary token st =
     (case st of (vocab, vocab_index) \<Rightarrow>
        (if token \<notin> set (map fst vocab)
         then (AList.update token vocab_index vocab, vocab_index + 1)
         else (vocab, vocab_index)))"

definition build_vocabulary :: "string list list \<Rightarrow> nat dict" where
  "build_vocabulary all_chunks_tokens =
     fst (fold (\<lambda>chunk_tokens st. fold add_vocabulary (set_iter chunk_tokens) st)
            all_chunks_tokens ([], 0))"

subsection \<open>\<^verbatim>\<open>cosine_similarity\<close>\<close>

text \<open>The subscript \<^verbatim>\<open>vec[term]\<close> is only applied to a term of \<open>common_terms\<close>, a key of
  both vectors, so it never raises \<^verbatim>\<open>KeyError\<close>. The sums, the square root and the quotient
  are those of the real numbers. The source computes them in double precision: the
  quotient of a vector with itself is 1 only up to rounding, the dot product is summed in
  the order in which the set of common terms is visited, and \<^verbatim>\<open>score ** 2\<close> raises
  \<^verbatim>\<open>OverflowError\<close> for a weight beyond about \<open>1.3e154\<close>. What is proved of this function is
  limited to the two early results, which involve no rounding (the value 0 for vectors
  without a common term and the value 0 for a vector of norm 0), and to the sign of the
  result for vectors of weights that are not negative, which an example of the search
  uses.\<close>

definition cosine_similarity :: "real dict \<Rightarrow> real dict \<Rightarrow> real" where
  "cosine_similarity vec1 vec2 =
     (let common_terms = set (map fst vec1) \<inter> set (map fst vec2)
      in if common_terms = {} then 0
         else
           (let dot_product =
                  (\<Sum>term\<in>common_terms. the (map_of vec1 term) * the (map_of vec2 term));
                norm1 = sqrt (\<Sum>score\<leftarrow>map snd vec1. score ^ 2);
                norm2 = sqrt (\<Sum>score\<leftarrow>map snd vec2. score ^ 2)
            in if norm1 = 0 \<or> norm2 = 0 then 0
               else dot_product / (norm1 * norm2)))"

subsection \<open>The processor and its store\<close>

record doc_info =
  filename :: string
  file_path :: string
  processed_at :: string
  chunk_count :: int
  file_size :: int
  file_type :: string

record stats =
  total_documents :: int
  total_chunks :: int
  total_words :: int
  vocabulary_size :: int
  last_processed :: "string option"

record processor =
  documents :: "doc_info dict"
  chunks :: "string list"
  tfidf_matrix :: "real dict list"
  vocabulary :: "nat dict"
  idf_scores :: "real dict"
  document_stats :: stats

text \<open>The statistics of the constructor, of \<^verbatim>\<open>clear_data\<close> and of the default of
  \<^verbatim>\<open>import_data\<close>.\<close>

definition empty_stats :: stats where
  "empty_stats =
     \<lparr>total_documents = 0, total_chunks = 0, total_words = 0, vocabulary_size = 0,
      last_processed = None\<rparr>"

definition init :: processor where
  "init =
     \<lparr>documents = [], chunks = [], tfidf_matrix = [], vocabulary = [], idf_scores = [],
      document_stats = empty_stats\<rparr>"

text \<open>\<^verbatim>\<open>calculate_tfidf_matrix\<close> returns the matrix and the vocabulary, and stores the IDF table
  in the processor.\<close>

definition calculate_tfidf_matrix ::
  "processor \<Rightarrow> string list \<Rightarrow> (real dict list \<times> nat dict) \<times> processor" where
  "calculate_tfidf_matrix self chunk_texts =
     (let all_chunks_tokens = map tokenize chunk_texts;
          self' = self\<lparr>idf_scores := calculate_idf all_chunks_tokens\<rparr>;
          vocab = build_vocabulary all_chunks_tokens;
          matrix = map (\<lambda>chunk_tokens. tfidf_vector (idf_scores self') (calculate_tf chunk_tokens))
                     all_chunks_tokens
      in ((matrix, vocab), self'))"

text \<open>The assignments of \<^verbatim>\<open>process_document\<close> that store the index of the chunks:
  \<^verbatim>\<open>tfidf_matrix, vocabulary = self.calculate_tfidf_matrix(chunks)\<close>, then \<^verbatim>\<open>self.chunks\<close>,
  \<^verbatim>\<open>self.tfidf_matrix\<close> and \<^verbatim>\<open>self.vocabulary\<close>. The extraction of the text from a file, the
  statistics and the entry of the document, which \<^verbatim>\<open>search_similar_chunks\<close> does not read,
  are not modelled.\<close>

definition store_index :: "processor \<Rightarrow> string list \<Rightarrow> processor" where
  "store_index self chunk_texts =
     (case calculate_tfidf_matrix self chunk_texts of
        ((matrix, vocab), self') \<Rightarrow>
          self'\<lparr>chunks := chunk_texts, tfidf_matrix := matrix, vocabulary := vocab\<rparr>)"

text \<open>A corpus of three chunks for the examples.\<close>

definition three_chunks :: "string list" where
  "three_chunks = [''gato subiu telhado'', ''cachorro correu parque'', ''gato dormiu sofa'']"

subsection \<open>\<^verbatim>\<open>search_similar_chunks\<close>\<close>

record search_result =
  chunk_index :: nat
  content :: string
  similarity :: real

datatype py_error = IndexError

text \<open>The loop over \<^verbatim>\<open>enumerate(self.tfidf_matrix)\<close>. The subscript \<^verbatim>\<open>self.chunks[i]\<close> raises
  \<^verbatim>\<open>IndexError\<close> when the matrix is longer than the list of chunks.\<close>

fun collect_similar ::
  "string list \<Rightarrow> real dict \<Rightarrow> nat \<Rightarrow> real dict list \<Rightarrow> search_result list
     \<Rightarrow> py_error + search_result list" where
  "collect_similar chunk_texts query_tfidf i [] similarities = Inr similarities"
| "collect_similar chunk_texts query_tfidf i (chunk_tfidf # rest) similarities =
     (let sim = cosine_similarity query_tfidf chunk_tfidf
      in if sim > 0 then
           (if i < length chunk_texts
            then collect_similar chunk_texts query_tfidf (i + 1) rest
                   (similarities @
                      [\<lparr>chunk_index = i, content = chunk_texts ! i, similarity = sim\<rparr>])
            else Inl IndexError)
         else collect_similar chunk_texts query_tfidf (i + 1) rest similarities)"

text \<open>\<^verbatim>\<open>list.sort(key=..., reverse=True)\<close> is stable, as \<open>sort_key\<close> is. An exception in the
  body is caught and the empty list returned.\<close>

definition search_similar_chunks :: "processor \<Rightarrow> string \<Rightarrow> int \<Rightarrow> search_result list" where
  "search_similar_chunks self query top_k =
     (if chunks self = [] \<or> tfidf_matrix self = [] then []
      else
        (let query_tokens = tokenize query
         in if query_tokens = [] then []
            else
              (let query_tf = calculate_tf query_tokens;
                   query_tfidf = tfidf_vector (idf_scores self) query_tf
               in if query_tfidf = [] then []
                  else
                    (case collect_similar (chunks self) query_tfidf 0 (tfidf_matrix self) [] of
                       Inl e \<Rightarrow> []
                     | Inr similarities \<Rightarrow>
                         slice (sort_key (\<lambda>x. - similarity x) similarities) 0 top_k))))"

subsection \<open>\<^verbatim>\<open>export_data\<close>, \<^verbatim>\<open>import_data\<close>, \<^verbatim>\<open>clear_data\<close>\<close>

text \<open>A snapshot is a dictionary with the keys below; a key may be missing, which is the
  value \<open>None\<close> of its field. The values have the types that \<^verbatim>\<open>export_data\<close> writes, so
  that \<^verbatim>\<open>len(self.chunks)\<close> in \<^verbatim>\<open>import_data\<close> does not raise and its handler is not
  entered.\<close>

record snapshot =
  snap_documents :: "doc_info dict option"
  snap_chunks :: "string list option"
  snap_tfidf_matrix :: "real dict list option"
  snap_vocabulary :: "nat dict option"
  snap_idf_scores :: "real dict option"
  snap_document_stats :: "stats option"
  snap_exported_at :: "string option"

text \<open>\<^verbatim>\<open>data.get(key, default)\<close>.\<close>

definition get_default :: "'a option \<Rightarrow> 'a \<Rightarrow> 'a" where
  "get_default field dflt = (case field of None \<Rightarrow> dflt | Some v \<Rightarrow> v)"

text \<open>The second argument is the time stamp \<^verbatim>\<open>datetime.now().isoformat()\<close>.\<close>

definition export_data :: "processor \<Rightarrow> string \<Rightarrow> snapshot" where
  "export_data self now =
     \<lparr>snap_documents = Some (documents self),
      snap_chunks = Some (chunks self),
      snap_tfidf_matrix = Some (tfidf_matrix self),
      snap_vocabulary = Some (vocabulary self),
      snap_idf_scores = Some (idf_scores self),
      snap_document_stats = Some (document_stats self),
      snap_exported_at = Some now\<rparr>"

definition import_data :: "processor \<Rightarrow> snapshot \<Rightarrow> processor \<times> bool" where
  "import_data self data =
     (self\<lparr>documents := get_default (snap_documents data) [],
           chunks := get_default (snap_chunks data) [],
           tfidf_matrix := get_default (snap_tfidf_matrix data) [],
           vocabulary := get_default (snap_vocabulary data) [],
           idf_scores := get_default (snap_idf_scores data) [],
           document_stats := get_default (snap_document_stats data) empty_stats\<rparr>,
      True)"

text \<open>Two values for the examples: a snapshot with no key at all, and a processor that
  holds one chunk.\<close>

definition no_fields :: snapshot where
  "no_fields =
     \<lparr>snap_documents = None, snap_chunks = None, snap_tfidf_matrix = None,
      snap_vocabulary = None, snap_idf_scores = None, snap_document_stats = None,
      snap_exported_at = None\<rparr>"

definition loaded :: processor where
  "loaded =
     init\<lparr>chunks := [''gato subiu telhado''],
          tfidf_matrix := [[(''gato'', 0), (''subiu'', 0), (''telhado'', 0)]]\<rparr>"

definition clear_data :: "processor \<Rightarrow> processor" where
  "clear_data self =
     self\<lparr>documents := [], chunks := [], tfidf_matrix := [], vocabulary := [],
          idf_scores := [], document_stats := empty_stats\<rparr>"

section \<open>Properties\<close>

subsection \<open>Words, joining and stripping\<close>

lemma split_from_words:
  "\<forall>c\<in>set cur. \<not> is_space c \<Longrightarrow> w \<in> set (split_from cur s) \<Longrightarrow> word_ok w"
proof (induction s arbitrary: cur)
  case Nil
  then show ?case by (simp add: word_ok_def split: if_splits)
next
  case (Cons c s)
  show ?case
  proof (cases "is_space c")
    case True
    with Cons.prems have "w = cur \<and> cur \<noteq> [] \<or> w \<in> set (split_from [] s)"
      by (auto split: if_splits)
    then show ?thesis
    proof
      assume "w = cur \<and> cur \<noteq> []"
      with Cons.prems(1) show ?thesis by (simp add: word_ok_def)
    next
      assume "w \<in> set (split_from [] s)"
      then show ?thesis by (intro Cons.IH [of "[]"]) simp_all
    qed
  next
    case False
    with Cons.prems have "w \<in> set (split_from (cur @ [c]) s)" by simp
    moreover have "\<forall>d\<in>set (cur @ [c]). \<not> is_space d" using False Cons.prems(1) by simp
    ultimately show ?thesis by (intro Cons.IH [of "cur @ [c]"])
  qed
qed

lemma split_words: "w \<in> set (split s) \<Longrightarrow> word_ok w"
  using split_from_words [of "[]" w s] by (simp add: split_def)

lemma split_from_append_word:
  "\<forall>c\<in>set w. \<not> is_space c \<Longrightarrow> split_from cur (w @ rest) = split_from (cur @ w) rest"
  by (induction w arbitrary: cur) auto

lemma is_space_blank: "is_space (CHR '' '')"
  by (simp add: is_space_def)

lemma split_join:
  "\<forall>w\<in>set ws. word_ok w \<Longrightarrow> split (join '' '' ws) = ws"
proof (induction "'' ''" ws rule: join.induct)
  case 1
  then show ?case by (simp add: split_def)
next
  case (2 x)
  then have "split_from [] (x @ []) = split_from ([] @ x) []"
    by (intro split_from_append_word) (simp add: word_ok_def)
  with 2 show ?case by (simp add: split_def word_ok_def)
next
  case (3 x y ys)
  then have x: "word_ok x" and IH: "split (join '' '' (y # ys)) = y # ys" by simp_all
  have "split_from [] (x @ '' '' @ join '' '' (y # ys)) = split_from ([] @ x) ('' '' @ join '' '' (y # ys))"
    using x by (intro split_from_append_word) (simp add: word_ok_def)
  also have "\<dots> = x # split_from [] (join '' '' (y # ys))"
    using x by (simp add: word_ok_def is_space_blank)
  finally show ?case using IH by (simp add: split_def)
qed

lemma strip_id:
  assumes "s = [] \<or> (\<not> is_space (hd s) \<and> \<not> is_space (last s))"
  shows "strip s = s"
proof (cases s)
  case Nil
  then show ?thesis by (simp add: strip_def)
next
  case (Cons c cs)
  with assms have a: "\<not> is_space c" and b: "\<not> is_space (last s)" by simp_all
  have 1: "dropWhile is_space s = s" using Cons a by simp
  have "rev s \<noteq> []" using Cons by simp
  moreover have "hd (rev s) = last s" using Cons by (simp add: hd_rev)
  ultimately have 2: "dropWhile is_space (rev s) = rev s"
    using b by (simp add: dropWhile_eq_self_iff)
  show ?thesis by (simp add: strip_def 1 2)
qed

lemma join_ends:
  "ws \<noteq> [] \<Longrightarrow> \<forall>w\<in>set ws. word_ok w \<Longrightarrow>
     join '' '' ws \<noteq> [] \<and> \<not> is_space (hd (join '' '' ws)) \<and> \<not> is_space (last (join '' '' ws))"
  by (induction "'' ''" ws rule: join.induct) (auto simp: word_ok_def neq_Nil_conv)

lemma strip_join:
  assumes "\<forall>w\<in>set ws. word_ok w"
  shows "strip (join '' '' ws) = join '' '' ws"
proof (cases "ws = []")
  case True
  then show ?thesis by (simp add: strip_def)
next
  case False
  from join_ends [OF False assms] show ?thesis by (intro strip_id) simp
qed

lemma concat_windows: "0 < n \<Longrightarrow> concat (windows n xs) = xs"
proof (induction n xs rule: windows.induct)
  case (1 n xs)
  then show ?case by (subst windows.simps) auto
qed

lemma set_windows: "w \<in> set (windows n xs) \<Longrightarrow> set w \<subseteq> set xs"
proof (induction n xs rule: windows.induct)
  case (1 n xs)
  show ?case
  proof (cases "n = 0 \<or> xs = []")
    case True
    with "1.prems" show ?thesis by (simp add: windows.simps)
  next
    case False
    with "1.prems" have "w = take n xs \<or> w \<in> set (windows n (drop n xs))"
      by (subst (asm) windows.simps) simp
    then show ?thesis
    proof
      assume "w = take n xs"
      then show ?thesis by (simp add: set_take_subset)
    next
      assume "w \<in> set (windows n (drop n xs))"
      from "1.IH" [OF False this] set_drop_subset [of n xs] show ?thesis by blast
    qed
  qed
qed

lemma slice_window:
  "start \<le> length xs \<Longrightarrow>
     slice xs (int start) (min (int start + int n) (int (length xs))) = take n (drop start xs)"
  by (auto simp: slice_def slice_bound_def Let_def min_def nat_int_add)

lemma split_loop_windows:
  "0 < n \<Longrightarrow> start \<le> length ws \<Longrightarrow>
     split_loop ws (int n) 0 (int start) acc = Some (acc @ emitted (windows n (drop start ws)))"
proof (induction "length ws - start" arbitrary: start acc rule: less_induct)
  case less
  show ?case
  proof (cases "start < length ws")
    case False
    with less.prems have "start = length ws" by simp
    then show ?thesis by (subst split_loop.simps) (simp add: windows.simps emitted_def)
  next
    case True
    let ?w = "take n (drop start ws)"
    let ?acc = "if length (strip (join '' '' ?w)) > 50 then acc @ [strip (join '' '' ?w)] else acc"
    have sl: "slice ws (int start) (min (int start + int n) (int (length ws))) = ?w"
      using True by (intro slice_window) simp
    have w: "windows n (drop start ws) = ?w # windows n (drop (start + n) ws)"
      using True less.prems by (subst windows.simps) (simp add: add.commute)
    show ?thesis
    proof (cases "start + n \<ge> length ws")
      case True
      then have "windows n (drop (start + n) ws) = []" by (simp add: windows.simps)
      with w True \<open>start < length ws\<close> sl show ?thesis
        by (subst split_loop.simps) (simp add: Let_def emitted_def min_def)
    next
      case False
      then have "length ws - (start + n) < length ws - start" using less.prems by simp
      from less.hyps [OF this less.prems(1), of ?acc] False
      have rec: "split_loop ws (int n) 0 (int start + int n) ?acc
              = Some (?acc @ emitted (windows n (drop (start + n) ws)))" by simp
      have m: "min (int start + int n) (int (length ws)) = int start + int n"
        using False by simp
      show ?thesis
        apply (subst split_loop.simps)
        using w False \<open>start < length ws\<close> sl rec
        apply (simp add: Let_def m)
        apply (auto simp: emitted_def split: if_splits)
        done
    qed
  qed
qed

lemma emitted_words:
  assumes "\<forall>ws\<in>set wss. \<forall>w\<in>set ws. word_ok w"
  shows "emitted wss = map (join '' '') (filter (\<lambda>w. 50 < length (join '' '' w)) wss)"
  using assms by (induction wss) (simp_all add: emitted_def strip_join)

subsection \<open>The loop of \<open>split_into_chunks\<close> when it cannot advance\<close>

text \<open>The next start is \<open>end_pos - overlap\<close>, where \<open>end_pos\<close> is at most the number of words
  and at most \<open>start + chunk_size\<close>. With a positive overlap it stays below the number of
  words, and with an overlap of at least the chunk size it does not exceed the start:
  in both cases neither the loop condition nor the \<^verbatim>\<open>break\<close> ends the loop.\<close>

lemma split_loop_stuck:
  assumes "split_loop ws chunk_size overlap start acc = Some r"
  shows "\<not> ((0 < overlap \<or> chunk_size \<le> overlap) \<and> start < int (length ws))"
proof (rule split_loop.raw_induct
    [where P = "\<lambda>ws cs ov st acc r. \<not> ((0 < ov \<or> cs \<le> ov) \<and> st < int (length ws))",
     OF _ assms],
    goal_cases)
  case (1 loop ws cs ov st acc r)
  show ?case
  proof
    assume inv: "(0 < ov \<or> cs \<le> ov) \<and> st < int (length ws)"
    define end_pos where "end_pos = min (st + cs) (int (length ws))"
    define acc' where
      "acc' = (if length (strip (join '' '' (slice ws st end_pos))) > 50
               then acc @ [strip (join '' '' (slice ws st end_pos))] else acc)"
    have lt: "end_pos - ov < int (length ws)"
      using inv unfolding end_pos_def by linarith
    from 1(2) inv lt have "loop ws cs ov (end_pos - ov) acc' = Some r"
      by (auto simp: Let_def end_pos_def acc'_def split: if_splits)
    from 1(1) [OF this] inv lt show False by simp
  qed
qed

lemma split_loop_diverges:
  assumes "0 < overlap \<or> chunk_size \<le> overlap" and "start < int (length ws)"
  shows "split_loop ws chunk_size overlap start acc = None"
proof (cases "split_loop ws chunk_size overlap start acc")
  case None
  then show ?thesis .
next
  case (Some r)
  from split_loop_stuck [OF this] assms show ?thesis by simp
qed

text \<open>So a text of more words than the chunk size, chunked with a positive overlap (the
  default is 50) or with an overlap of at least the chunk size, is a call that does not
  return.\<close>

lemma split_into_chunks_diverges:
  assumes "0 < overlap \<or> chunk_size \<le> overlap"
    and "chunk_size < int (length (split text))" and "split text \<noteq> []"
  shows "split_into_chunks text chunk_size overlap = None"
  using assms by (simp add: split_into_chunks_def split_loop_diverges)

subsection \<open>The claims about \<open>split_into_chunks\<close>\<close>

text \<open>
  C2. With an overlap of at least the chunk size, \<open>split_into_chunks\<close> should refuse the
  configuration and in any case return. The source has no such check: on the two words
  \<open>a b\<close> with chunk size 1 and overlap 1 the call does not return.
\<close>

theorem split_into_chunks_hangs:
  "split_into_chunks ''a b'' 1 1 = None"
proof -
  have w: "split ''a b'' = [''a'', ''b'']" by code_simp
  show ?thesis by (simp add: split_into_chunks_def w split_loop_diverges)
qed

text \<open>
  C5, as stated: the chunks returned for a text of at least \<open>chunk_size\<close> words give back
  the words of the text. It fails on the three words \<open>a b c\<close> with chunk size 2 and no
  overlap: both windows have at most 50 characters, so no chunk is returned.
\<close>

theorem split_into_chunks_drops_words:
  "split ''a b c'' = [''a'', ''b'', ''c''] \<and> split_into_chunks ''a b c'' 2 0 = Some []"
  by code_simp

text \<open>
  C5, amended: for a text of more than \<open>chunk_size\<close> words, a chunk size of at least 1 and
  overlap 0, \<open>split_into_chunks\<close> returns, in order, the windows of \<open>chunk_size\<close> words
  joined by single spaces, those of more than 50 characters only; when every window has
  more than 50 characters, the words of the chunks, one chunk after the other, are the
  words of the text.
\<close>

theorem split_into_chunks_windows:
  assumes "1 \<le> chunk_size" and "chunk_size < int (length (split text))"
  shows "split_into_chunks text chunk_size 0 =
           Some (map (join '' '')
                   (filter (\<lambda>w. 50 < length (join '' '' w))
                      (windows (nat chunk_size) (split text))))
         \<and> ((\<forall>w\<in>set (windows (nat chunk_size) (split text)). 50 < length (join '' '' w)) \<longrightarrow>
              (\<exists>chs. split_into_chunks text chunk_size 0 = Some chs
                     \<and> concat (map split chs) = split text))"
proof -
  let ?n = "nat chunk_size"
  let ?wss = "windows ?n (split text)"
  have n: "0 < ?n" "int ?n = chunk_size" using assms(1) by simp_all
  have ok: "\<forall>ws\<in>set ?wss. \<forall>w\<in>set ws. word_ok w"
    using set_windows split_words by blast
  have "split_loop (split text) (int ?n) 0 (int 0) [] = Some ([] @ emitted (windows ?n (drop 0 (split text))))"
    using n(1) by (intro split_loop_windows) simp_all
  then have loop: "split_loop (split text) chunk_size 0 0 [] = Some (emitted ?wss)"
    using n(2) by simp
  have res: "split_into_chunks text chunk_size 0 =
               Some (map (join '' '') (filter (\<lambda>w. 50 < length (join '' '' w)) ?wss))"
    using assms(2) loop by (simp add: split_into_chunks_def emitted_words [OF ok])
  have "concat (map split (map (join '' '') ?wss)) = split text"
    if "\<forall>w\<in>set ?wss. 50 < length (join '' '' w)"
  proof -
    have "map split (map (join '' '') ?wss) = ?wss"
      using ok by (simp add: map_idI split_join)
    then show ?thesis using n(1) by (simp add: concat_windows)
  qed
  then have "(\<forall>w\<in>set ?wss. 50 < length (join '' '' w)) \<longrightarrow>
               (\<exists>chs. split_into_chunks text chunk_size 0 = Some chs
                      \<and> concat (map split chs) = split text)"
    using res by auto
  with res show ?thesis by blast
qed

theorem split_into_chunks_windows_witness:
  "(1::int) \<le> 2
   \<and> 2 < int (length (split ''abcdefghijklmnopqrstuvwxyz ABCDEFGHIJKLMNOPQRSTUVWXYZ abcdefghijklmnopqrstuvwxyz ABCDEFGHIJKLMNOPQRSTUVWXYZ''))
   \<and> map (\<lambda>w. length (join '' '' w))
         (windows (nat 2) (split ''abcdefghijklmnopqrstuvwxyz ABCDEFGHIJKLMNOPQRSTUVWXYZ abcdefghijklmnopqrstuvwxyz ABCDEFGHIJKLMNOPQRSTUVWXYZ''))
       = [53, 53]
   \<and> split_into_chunks ''abcdefghijklmnopqrstuvwxyz ABCDEFGHIJKLMNOPQRSTUVWXYZ abcdefghijklmnopqrstuvwxyz ABCDEFGHIJKLMNOPQRSTUVWXYZ'' 2 0
       = Some [''abcdefghijklmnopqrstuvwxyz ABCDEFGHIJKLMNOPQRSTUVWXYZ'',
               ''abcdefghijklmnopqrstuvwxyz ABCDEFGHIJKLMNOPQRSTUVWXYZ'']
   \<and> concat (map split [''abcdefghijklmnopqrstuvwxyz ABCDEFGHIJKLMNOPQRSTUVWXYZ'',
               ''abcdefghijklmnopqrstuvwxyz ABCDEFGHIJKLMNOPQRSTUVWXYZ''])
       = split ''abcdefghijklmnopqrstuvwxyz ABCDEFGHIJKLMNOPQRSTUVWXYZ abcdefghijklmnopqrstuvwxyz ABCDEFGHIJKLMNOPQRSTUVWXYZ''"
proof -
  let ?t = "''abcdefghijklmnopqrstuvwxyz ABCDEFGHIJKLMNOPQRSTUVWXYZ abcdefghijklmnopqrstuvwxyz ABCDEFGHIJKLMNOPQRSTUVWXYZ''"
  let ?c = "''abcdefghijklmnopqrstuvwxyz ABCDEFGHIJKLMNOPQRSTUVWXYZ''"
  have h1: "(1::int) \<le> 2" by simp
  have h2: "2 < int (length (split ?t))" by code_simp
  have l: "map (\<lambda>w. length (join '' '' w)) (windows (nat 2) (split ?t)) = [53, 53]"
    by code_simp
  have v: "map (join '' '') (filter (\<lambda>w. 50 < length (join '' '' w)) (windows (nat 2) (split ?t)))
             = [?c, ?c]" by code_simp
  have r: "concat (map split [?c, ?c]) = split ?t" by code_simp
  from split_into_chunks_windows [OF h1 h2] have "split_into_chunks ?t 2 0 = Some [?c, ?c]"
    unfolding v by blast
  with h1 h2 l r show ?thesis by blast
qed

text \<open>
  C10. A text of at most \<open>chunk_size\<close> words is returned whole, as the only chunk; the
  test on 50 characters is not applied.
\<close>

theorem split_into_chunks_short:
  assumes "int (length (split text)) \<le> chunk_size"
  shows "split_into_chunks text chunk_size overlap = Some [text]"
  using assms by (simp add: split_into_chunks_def)

theorem split_into_chunks_short_witness:
  "int (length (split ''   '')) \<le> 500 \<and> split_into_chunks ''   '' 500 50 = Some [''   '']"
proof -
  have h: "int (length (split ''   '')) \<le> 500" by code_simp
  from h split_into_chunks_short [OF h, of 50] show ?thesis by simp
qed

text \<open>An empty text or one of white space only has no word, so with a chunk size that is
  not negative it is the single chunk.\<close>

lemma split_from_spaces: "\<forall>c\<in>set s. is_space c \<Longrightarrow> split_from [] s = []"
  by (induction s) auto

lemma split_into_chunks_blank:
  assumes "\<forall>c\<in>set text. is_space c" and "0 \<le> chunk_size"
  shows "split_into_chunks text chunk_size overlap = Some [text]"
  using assms by (simp add: split_into_chunks_def split_def split_from_spaces)

subsection \<open>\<open>clean_text\<close> works on one line\<close>

text \<open>The second substitution leaves no line break, so the text is a single line when it
  is cut into lines: the result is the whole cleaned text, stripped, when that has more
  than 10 characters, and the empty string otherwise.\<close>

lemma collapse_from_space:
  "c \<in> set (collapse_from b s) \<Longrightarrow> is_space c \<Longrightarrow> c = CHR '' ''"
  by (induction s arbitrary: b) (auto split: if_splits)

lemma newline_is_space: "is_space (CHR 0x0A)"
  by (simp add: is_space_def)

lemma collapse_spaces_no_newline: "CHR 0x0A \<notin> set (collapse_spaces s)"
  using collapse_from_space [of "CHR 0x0A" False s] newline_is_space
  by (auto simp: collapse_spaces_def)

lemma split_on_absent: "sep \<notin> set s \<Longrightarrow> split_on sep s = [s]"
  by (induction s) auto

lemma last_dropWhile: "dropWhile P xs \<noteq> [] \<Longrightarrow> last (dropWhile P xs) = last xs"
proof -
  assume a: "dropWhile P xs \<noteq> []"
  have "last xs = last (takeWhile P xs @ dropWhile P xs)" by simp
  also have "\<dots> = last (dropWhile P xs)" using a by (simp only: last_append if_False)
  finally show ?thesis by simp
qed

lemma strip_strip: "strip (strip s) = strip s"
proof (cases "strip s = []")
  case True
  have "strip [] = []" by (simp add: strip_def)
  with True show ?thesis by simp
next
  case False
  define a where "a = dropWhile is_space s"
  define b where "b = dropWhile is_space (rev a)"
  have st: "strip s = rev b" by (simp add: strip_def a_def b_def)
  from False have b: "b \<noteq> []" by (simp add: st)
  have a: "a \<noteq> []"
  proof
    assume "a = []"
    then have "b = []" by (simp add: b_def)
    with b show False by simp
  qed
  from b have "\<not> is_space (hd b)" unfolding b_def by (rule hd_dropWhile)
  then have l: "\<not> is_space (last (strip s))" using b by (simp add: st last_rev)
  have "hd (strip s) = last b" using b by (simp add: st hd_rev)
  also have "\<dots> = last (rev a)" using b unfolding b_def by (rule last_dropWhile)
  also have "\<dots> = hd a" using a by (simp add: last_rev)
  finally have "hd (strip s) = hd a" .
  moreover from a have "\<not> is_space (hd a)" unfolding a_def by (rule hd_dropWhile)
  ultimately have "\<not> is_space (hd (strip s))" by simp
  with l show ?thesis by (intro strip_id) simp
qed

lemma clean_text_whole:
  "clean_text text =
     (let t = strip (collapse_spaces (map (\<lambda>c. if kept_char c then c else CHR '' '') text))
      in if 10 < length t then t else [])"
proof -
  let ?t2 = "collapse_spaces (map (\<lambda>c. if kept_char c then c else CHR '' '') text)"
  have "split_on (CHR 0x0A) ?t2 = [?t2]"
    by (intro split_on_absent collapse_spaces_no_newline)
  then show ?thesis
    by (simp add: clean_text_def Let_def strip_strip) (simp add: strip_def)
qed

lemma set_strip: "set (strip s) \<subseteq> set s"
proof -
  have "set (strip s) \<subseteq> set (dropWhile is_space s)"
    unfolding strip_def using set_dropWhileD by fastforce
  also have "\<dots> \<subseteq> set s" using set_dropWhileD by fastforce
  finally show ?thesis .
qed

lemma clean_text_one_line: "CHR 0x0A \<notin> set (clean_text text)"
proof -
  let ?t2 = "collapse_spaces (map (\<lambda>c. if kept_char c then c else CHR '' '') text)"
  have "set (clean_text text) \<subseteq> set (strip ?t2)"
    by (auto simp: clean_text_whole Let_def)
  also have "\<dots> \<subseteq> set ?t2" by (rule set_strip)
  finally show ?thesis using collapse_spaces_no_newline [of "map (\<lambda>c. if kept_char c then c else CHR '' '') text"] by blast
qed

subsection \<open>The claim about \<open>clean_text\<close>\<close>

text \<open>
  C6. \<open>clean_text\<close> should remove the lines of at most 10 characters. The second
  substitution has already turned every line break into a space when the text is cut into
  lines, so the two-character line \<open>ab\<close> below stays in the result.
\<close>

theorem clean_text_keeps_short_line:
  "clean_text (''ab'' @ [CHR 0x0A] @ ''this line is long'') = ''ab this line is long''"
  by code_simp

subsection \<open>Dictionaries of counts, term frequency, inverse document frequency\<close>

lemma update_fresh: "k \<notin> fst ` set d \<Longrightarrow> AList.update k v d = d @ [(k, v)]"
  by (induction d) auto

lemma fold_update_distinct:
  "distinct (map fst kvs) \<Longrightarrow> fst ` set kvs \<inter> fst ` set d = {} \<Longrightarrow>
     fold (\<lambda>(k, v) d. AList.update k v d) kvs d = d @ kvs"
proof (induction kvs arbitrary: d)
  case Nil
  then show ?case by simp
next
  case (Cons kv kvs)
  obtain k v where kv: "kv = (k, v)" by (cases kv)
  from Cons.prems kv have fresh: "k \<notin> fst ` set d" by auto
  have "fst ` set kvs \<inter> fst ` set (d @ [(k, v)]) = {}"
    using Cons.prems kv by force
  with Cons.IH [of "d @ [(k, v)]"] Cons.prems(1)
  have "fold (\<lambda>(k, v) d. AList.update k v d) kvs (d @ [(k, v)]) = (d @ [(k, v)]) @ kvs"
    by simp
  then show ?case by (simp add: kv update_fresh [OF fresh])
qed

lemma dict_of_items_distinct: "distinct (map fst kvs) \<Longrightarrow> dict_of_items kvs = kvs"
  using fold_update_distinct [of kvs "[]"] by (simp add: dict_of_items_def)

lemma fst_map_value: "fst \<circ> (\<lambda>(k, v). (k, f v)) = fst"
  by (auto simp: fun_eq_iff)

lemma map_fst_map_value: "map fst (map (\<lambda>(k, v). (k, f v)) xs) = map fst xs"
  by (simp add: fst_map_value)

lemma map_of_map_value:
  "map_of (map (\<lambda>(k, v). (k, f v)) xs) t = map_option f (map_of xs t)"
  by (induction xs) auto

lemma increment_map_of:
  "map_of (increment x d) t = (if t = x then Some (count_of d x + 1) else map_of d t)"
  by (simp add: increment_def count_of_def update_conv')

lemma increment_distinct: "distinct (map fst d) \<Longrightarrow> distinct (map fst (increment x d))"
  by (simp add: increment_def distinct_update)

lemma increment_count_of:
  "count_of (increment x d) t = (if t = x then count_of d x + 1 else count_of d t)"
  by (simp add: count_of_def [of "increment x d"] increment_map_of) (simp add: count_of_def)

lemma fold_increment_map_of:
  "map_of (fold increment toks d) t =
     (if t \<in> set toks then Some (count_of d t + count_list toks t) else map_of d t)"
proof (induction toks arbitrary: d)
  case Nil
  then show ?case by simp
next
  case (Cons x xs)
  show ?case
    by (simp add: Cons.IH increment_count_of increment_map_of)
qed

lemma fold_increment_distinct:
  "distinct (map fst d) \<Longrightarrow> distinct (map fst (fold increment toks d))"
  by (induction toks arbitrary: d) (simp_all add: increment_distinct)







lemma count_list_distinct: "distinct xs \<Longrightarrow> count_list xs t = (if t \<in> set xs then 1 else 0)"
  by (induction xs) auto

lemma chunk_step_map_of:
  "map_of (fold increment (set_iter c) d) t =
     (if t \<in> set c then Some (count_of d t + 1) else map_of d t)"
  by (simp add: fold_increment_map_of set_iter_def count_list_distinct)

lemma chunk_step_count_of:
  "count_of (fold increment (set_iter c) d) t = count_of d t + (if t \<in> set c then 1 else 0)"
  by (simp add: count_of_def [of "fold increment (set_iter c) d"] chunk_step_map_of)
     (simp add: count_of_def)

lemma fold_chunks_map_of:
  "map_of (fold (\<lambda>c d. fold increment (set_iter c) d) all d) t =
     (if document_frequency all t = 0 then map_of d t
      else Some (count_of d t + document_frequency all t))"
proof (induction all arbitrary: d)
  case Nil
  then show ?case by (simp add: document_frequency_def)
next
  case (Cons c cs)
  show ?case
    by (simp add: Cons.IH chunk_step_map_of chunk_step_count_of document_frequency_def)
qed

lemma fold_chunks_distinct:
  "distinct (map fst d) \<Longrightarrow>
     distinct (map fst (fold (\<lambda>c d. fold increment (set_iter c) d) all d))"
  by (induction all arbitrary: d) (simp_all add: fold_increment_distinct)

lemma term_chunk_count_map_of:
  "map_of (term_chunk_count all) t =
     (if document_frequency all t = 0 then None else Some (document_frequency all t))"
  by (simp add: term_chunk_count_def fold_chunks_map_of count_of_def)

lemma term_chunk_count_distinct: "distinct (map fst (term_chunk_count all))"
  by (simp add: term_chunk_count_def fold_chunks_distinct)

lemma calculate_idf_eq:
  "calculate_idf all =
     map (\<lambda>(term, c). (term, ln (real (length all) / real c))) (term_chunk_count all)"
proof (cases "all = []")
  case True
  then show ?thesis by (simp add: calculate_idf_def term_chunk_count_def)
next
  case False
  then show ?thesis
    by (simp add: calculate_idf_def Let_def dict_of_items_distinct fst_map_value
        term_chunk_count_distinct)
qed

lemma calculate_idf_distinct: "distinct (map fst (calculate_idf all))"
  by (simp add: calculate_idf_eq fst_map_value term_chunk_count_distinct)

lemma calculate_idf_map_of:
  "map_of (calculate_idf all) t =
     (if document_frequency all t = 0 then None
      else Some (ln (real (length all) / real (document_frequency all t))))"
  by (simp add: calculate_idf_eq map_of_map_value term_chunk_count_map_of)

lemma document_frequency_le: "document_frequency all t \<le> length all"
  by (simp add: document_frequency_def)

lemma length_filter_all: "length (filter P xs) = length xs \<longleftrightarrow> (\<forall>x\<in>set xs. P x)"
proof (induction xs)
  case Nil
  then show ?case by simp
next
  case (Cons x xs)
  have le: "length (filter P xs) \<le> length xs" by simp
  show ?case
  proof (cases "P x")
    case True
    with Cons show ?thesis by simp
  next
    case False
    from le have "length (filter P xs) \<noteq> Suc (length xs)" by arith
    with False show ?thesis by simp
  qed
qed

lemma document_frequency_all:
  "document_frequency all t = length all \<longleftrightarrow> (\<forall>c\<in>set all. t \<in> set c)"
  by (simp add: document_frequency_def length_filter_all)


subsection \<open>The claim about \<open>calculate_idf\<close>\<close>

text \<open>
  C8. For a list of tokenised chunks that is not empty, every entry of the table of
  \<open>calculate_idf\<close> has the weight \<open>ln (total_chunks / document_frequency)\<close>, which is not
  negative, and is zero exactly when the token occurs in every chunk.
\<close>

theorem calculate_idf_weight:
  assumes "all \<noteq> []" and "(token, w) \<in> set (calculate_idf all)"
  shows "w = ln (real (length all) / real (document_frequency all token))
         \<and> 1 \<le> document_frequency all token
         \<and> 0 \<le> w
         \<and> (w = 0 \<longleftrightarrow> (\<forall>chunk_tokens\<in>set all. token \<in> set chunk_tokens))"
proof -
  let ?n = "length all" and ?k = "document_frequency all token"
  from assms(2) have "map_of (calculate_idf all) token = Some w"
    by (simp add: calculate_idf_distinct)
  then have k: "?k \<noteq> 0" and w: "w = ln (real ?n / real ?k)"
    by (simp_all add: calculate_idf_map_of split: if_splits)
  have le: "?k \<le> ?n" by (rule document_frequency_le)
  from k le have q: "1 \<le> real ?n / real ?k" by simp
  then have nonneg: "0 \<le> w" unfolding w by simp
  have "w = 0 \<longleftrightarrow> real ?n / real ?k = 1"
    using q unfolding w by simp
  also have "\<dots> \<longleftrightarrow> ?k = ?n" using k by auto
  also have "\<dots> \<longleftrightarrow> (\<forall>c\<in>set all. token \<in> set c)" by (rule document_frequency_all)
  finally show ?thesis using w k nonneg by simp
qed

theorem calculate_idf_weight_witness:
  "[[''gato'', ''telhado''], [''gato'', ''sofa'']] \<noteq> []
   \<and> (''telhado'', ln 2) \<in> set (calculate_idf [[''gato'', ''telhado''], [''gato'', ''sofa'']])
   \<and> document_frequency [[''gato'', ''telhado''], [''gato'', ''sofa'']] ''telhado'' = 1
   \<and> (0::real) \<le> ln 2"
proof -
  let ?all = "[[''gato'', ''telhado''], [''gato'', ''sofa'']]"
  have idf: "calculate_idf ?all = [(''gato'', 0), (''telhado'', ln 2), (''sofa'', ln 2)]"
    by (simp add: calculate_idf_def term_chunk_count_def set_iter_def increment_def
        dict_of_items_def)
  have h1: "?all \<noteq> []" by simp
  have h2: "(''telhado'', ln 2) \<in> set (calculate_idf ?all)" by (simp add: idf)
  have df: "document_frequency ?all ''telhado'' = 1" by (simp add: document_frequency_def)
  from calculate_idf_weight [OF h1 h2] h1 h2 df show ?thesis by blast
qed

subsection \<open>TF-IDF vectors\<close>







lemma matrix_eq:
  "fst (fst (calculate_tfidf_matrix self chunk_texts)) =
     map (\<lambda>toks. tfidf_vector (calculate_idf (map tokenize chunk_texts)) (calculate_tf toks))
       (map tokenize chunk_texts)"
  by (simp add: calculate_tfidf_matrix_def Let_def)




text \<open>Two small corpora, evaluated.\<close>

lemma tokenize_first: "tokenize ''gato subiu telhado'' = [''gato'', ''subiu'', ''telhado'']"
  by code_simp

lemma tokenize_second: "tokenize ''gato dormiu sofa'' = [''gato'', ''dormiu'', ''sofa'']"
  by code_simp



lemma tokenize_third: "tokenize ''cachorro correu parque'' = [''cachorro'', ''correu'', ''parque'']"
  by code_simp

lemma tokenize_query: "tokenize ''gato'' = [''gato'']"
  by code_simp

lemma matrix_three_chunks:
  "fst (fst (calculate_tfidf_matrix init three_chunks))
     = [[(''gato'', ln (3 / 2) / 3), (''subiu'', ln 3 / 3), (''telhado'', ln 3 / 3)],
        [(''cachorro'', ln 3 / 3), (''correu'', ln 3 / 3), (''parque'', ln 3 / 3)],
        [(''gato'', ln (3 / 2) / 3), (''dormiu'', ln 3 / 3), (''sofa'', ln 3 / 3)]]"
  by (simp add: three_chunks_def matrix_eq tokenize_first tokenize_second tokenize_third calculate_idf_def term_chunk_count_def set_iter_def increment_def
        dict_of_items_def calculate_tf_def counter_def tfidf_vector_def)

subsection \<open>The claim about the TF-IDF vectors\<close>




subsection \<open>Cosine similarity\<close>





subsection \<open>The claim about \<open>cosine_similarity\<close>\<close>




subsection \<open>Search\<close>

lemma collect_similar_positive:
  "collect_similar cs q i m acc = Inr sims \<Longrightarrow> \<forall>r\<in>set acc. 0 < similarity r \<Longrightarrow>
     \<forall>r\<in>set sims. 0 < similarity r"
proof (induction m arbitrary: i acc)
  case Nil
  then show ?case by simp
next
  case (Cons v m)
  show ?case
  proof (cases "0 < cosine_similarity q v")
    case False
    with Cons.prems(1) have "collect_similar cs q (i + 1) m acc = Inr sims" by simp
    from Cons.IH [OF this Cons.prems(2)] show ?thesis .
  next
    case True
    let ?acc = "acc @ [\<lparr>chunk_index = i, content = cs ! i, similarity = cosine_similarity q v\<rparr>]"
    from True Cons.prems(1) have "collect_similar cs q (i + 1) m ?acc = Inr sims"
      by (simp add: Let_def split: if_splits)
    moreover from True Cons.prems(2) have "\<forall>r\<in>set ?acc. 0 < similarity r" by simp
    ultimately show ?thesis by (rule Cons.IH)
  qed
qed

lemma slice_from_start: "slice xs 0 k = take (slice_bound (length xs) k) xs"
  by (simp add: slice_def slice_bound_def)

lemma slice_bound_nonneg: "0 \<le> k \<Longrightarrow> int (slice_bound n k) \<le> k"
  by (simp add: slice_bound_def)

lemma sorted_by_similarity:
  "sorted_wrt (\<lambda>a b. similarity b \<le> similarity a) (sort_key (\<lambda>x. - similarity x) xs)"
proof -
  have "sorted (map (\<lambda>x. - similarity x) (sort_key (\<lambda>x. - similarity x) xs))"
    by (rule sorted_sort_key)
  then show ?thesis by (simp add: sorted_map)
qed

lemma sum_list_positive:
  assumes "\<forall>x\<in>set xs. (0::real) \<le> x" and "y \<in> set xs" and "0 < y"
  shows "0 < sum_list xs"
proof -
  have "0 \<le> sum_list xs" using assms(1) by (intro sum_list_nonneg) simp
  moreover have "sum_list xs \<noteq> 0"
  proof
    assume "sum_list xs = 0"
    then have "\<forall>x\<in>set xs. x = 0" using assms(1) by (simp add: sum_list_nonneg_eq_0_iff)
    with assms(2,3) show False by auto
  qed
  ultimately show ?thesis by simp
qed

lemma norm_positive:
  assumes "(k, x) \<in> set a" and "x \<noteq> 0"
  shows "0 < sqrt (\<Sum>s\<leftarrow>map snd a. s ^ 2)"
proof -
  have "0 < (\<Sum>s\<leftarrow>map snd a. s ^ 2)"
  proof (rule sum_list_positive)
    show "\<forall>y\<in>set (map (\<lambda>s. s ^ 2) (map snd a)). 0 \<le> y" by auto
    show "x ^ 2 \<in> set (map (\<lambda>s. s ^ 2) (map snd a))" using assms(1) by force
    show "0 < x ^ 2" using assms(2) by simp
  qed
  then show ?thesis by simp
qed

lemma cosine_similarity_positive:
  assumes da: "distinct (map fst a)" and db: "distinct (map fst b)"
    and na: "\<forall>w\<in>set (map snd a). 0 \<le> w" and nb: "\<forall>w\<in>set (map snd b). 0 \<le> w"
    and xa: "(k, x) \<in> set a" and yb: "(k, y) \<in> set b" and x: "0 < x" and y: "0 < y"
  shows "0 < cosine_similarity a b"
proof -
  let ?C = "set (map fst a) \<inter> set (map fst b)"
  let ?f = "\<lambda>t. the (map_of a t) * the (map_of b t)"
  have kC: "k \<in> ?C" using xa yb by force
  have fk: "?f k = x * y" using da db xa yb by simp
  have nonneg: "0 \<le> ?f t" if "t \<in> ?C" for t
  proof -
    from that obtain u v where u: "(t, u) \<in> set a" and v: "(t, v) \<in> set b" by auto
    with da db have "?f t = u * v" by simp
    moreover from u na have "0 \<le> u" by force
    moreover from v nb have "0 \<le> v" by force
    ultimately show ?thesis by simp
  qed
  have dot: "0 < sum ?f ?C"
  proof (rule sum_pos2 [of ?C k])
    show "finite ?C" by simp
    show "k \<in> ?C" by (rule kC)
    show "0 < ?f k" using fk x y by simp
    show "\<And>i. i \<in> ?C \<Longrightarrow> 0 \<le> ?f i" by (rule nonneg)
  qed
  have n1: "0 < sqrt (\<Sum>s\<leftarrow>map snd a. s ^ 2)" using xa x by (intro norm_positive [of k x]) simp_all
  have n2: "0 < sqrt (\<Sum>s\<leftarrow>map snd b. s ^ 2)" using yb y by (intro norm_positive [of k y]) simp_all
  have "cosine_similarity a b = sum ?f ?C / (sqrt (\<Sum>s\<leftarrow>map snd a. s ^ 2) * sqrt (\<Sum>s\<leftarrow>map snd b. s ^ 2))"
    using kC n1 n2 by (auto simp: cosine_similarity_def Let_def)
  also have "0 < \<dots>" using dot n1 n2 by simp
  finally show ?thesis .
qed


lemma idf_three_chunks:
  "calculate_idf (map tokenize three_chunks)
     = [(''gato'', ln (3 / 2)), (''subiu'', ln 3), (''telhado'', ln 3), (''cachorro'', ln 3),
        (''correu'', ln 3), (''parque'', ln 3), (''dormiu'', ln 3), (''sofa'', ln 3)]"
  by (simp add: three_chunks_def tokenize_first tokenize_second tokenize_third calculate_idf_def
        term_chunk_count_def set_iter_def increment_def dict_of_items_def)

lemma store_index_fields:
  "chunks (store_index self cs) = cs"
  "tfidf_matrix (store_index self cs) = fst (fst (calculate_tfidf_matrix self cs))"
  "idf_scores (store_index self cs) = calculate_idf (map tokenize cs)"
  by (simp_all add: store_index_def calculate_tfidf_matrix_def Let_def)

lemma query_vector_gato:
  "tfidf_vector (calculate_idf (map tokenize three_chunks)) (calculate_tf (tokenize ''gato''))
     = [(''gato'', ln (3 / 2))]"
  by (simp add: idf_three_chunks tokenize_query calculate_tf_def counter_def dict_of_items_def
        tfidf_vector_def)

lemma similarity_first:
  "0 < cosine_similarity [(''gato'', ln (3 / 2))]
         [(''gato'', ln (3 / 2) / 3), (''subiu'', ln 3 / 3), (''telhado'', ln 3 / 3)]"
  by (rule cosine_similarity_positive [of _ _ "''gato''" "ln (3 / 2)" "ln (3 / 2) / 3"]) simp_all

lemma similarity_second:
  "cosine_similarity [(''gato'', ln (3 / 2))]
     [(''cachorro'', ln 3 / 3), (''correu'', ln 3 / 3), (''parque'', ln 3 / 3)] = 0"
  by (simp add: cosine_similarity_def)

lemma similarity_third:
  "0 < cosine_similarity [(''gato'', ln (3 / 2))]
         [(''gato'', ln (3 / 2) / 3), (''dormiu'', ln 3 / 3), (''sofa'', ln 3 / 3)]"
  by (rule cosine_similarity_positive [of _ _ "''gato''" "ln (3 / 2)" "ln (3 / 2) / 3"]) simp_all

lemma search_similar_chunks_found:
  assumes "chunks self \<noteq> []" and "tfidf_matrix self \<noteq> []" and "tokenize query \<noteq> []"
    and "tfidf_vector (idf_scores self) (calculate_tf (tokenize query)) = q" and "q \<noteq> []"
    and "collect_similar (chunks self) q 0 (tfidf_matrix self) [] = Inr sims"
  shows "search_similar_chunks self query top_k
           = slice (sort_key (\<lambda>x. - similarity x) sims) 0 top_k"
  using assms by (simp add: search_similar_chunks_def Let_def)

lemma search_gato:
  "search_similar_chunks (store_index init three_chunks) ''gato'' top_k
     = slice (sort_key (\<lambda>x. - similarity x)
         [\<lparr>chunk_index = 0, content = ''gato subiu telhado'',
           similarity = cosine_similarity [(''gato'', ln (3 / 2))]
             [(''gato'', ln (3 / 2) / 3), (''subiu'', ln 3 / 3), (''telhado'', ln 3 / 3)]\<rparr>,
          \<lparr>chunk_index = 2, content = ''gato dormiu sofa'',
           similarity = cosine_similarity [(''gato'', ln (3 / 2))]
             [(''gato'', ln (3 / 2) / 3), (''dormiu'', ln 3 / 3), (''sofa'', ln 3 / 3)]\<rparr>])
         0 top_k"
proof (rule search_similar_chunks_found [where q = "[(''gato'', ln (3 / 2))]"])
  show "chunks (store_index init three_chunks) \<noteq> []"
    by (simp add: store_index_fields three_chunks_def)
  show "tfidf_matrix (store_index init three_chunks) \<noteq> []"
    by (simp add: store_index_fields matrix_three_chunks)
  show "tokenize ''gato'' \<noteq> []" by (simp add: tokenize_query)
  show "tfidf_vector (idf_scores (store_index init three_chunks)) (calculate_tf (tokenize ''gato''))
          = [(''gato'', ln (3 / 2))]"
    by (simp only: store_index_fields query_vector_gato)
  show "[(''gato'', ln (3 / 2))] \<noteq> ([] :: real dict)" by simp
  show "collect_similar (chunks (store_index init three_chunks)) [(''gato'', ln (3 / 2))] 0
          (tfidf_matrix (store_index init three_chunks)) []
        = Inr [\<lparr>chunk_index = 0, content = ''gato subiu telhado'',
           similarity = cosine_similarity [(''gato'', ln (3 / 2))]
             [(''gato'', ln (3 / 2) / 3), (''subiu'', ln 3 / 3), (''telhado'', ln 3 / 3)]\<rparr>,
          \<lparr>chunk_index = 2, content = ''gato dormiu sofa'',
           similarity = cosine_similarity [(''gato'', ln (3 / 2))]
             [(''gato'', ln (3 / 2) / 3), (''dormiu'', ln 3 / 3), (''sofa'', ln 3 / 3)]\<rparr>]"
    apply (simp only: store_index_fields matrix_three_chunks)
    apply (simp add: similarity_first similarity_second similarity_third Let_def three_chunks_def)
    done
qed

lemma search_gato_all:
  "length (search_similar_chunks (store_index init three_chunks) ''gato'' 3) = 2"
  by (simp only: search_gato slice_from_start length_take length_sort)
     (simp add: slice_bound_def)

subsection \<open>The claim about \<open>search_similar_chunks\<close>\<close>

text \<open>
  C7. For every processor, every query and every number \<open>top_k\<close> of chunks to return, the
  result has only entries of similarity above zero, is in descending order of similarity,
  and has at most \<open>top_k\<close> entries. The parameter is an \<open>int\<close>; the first two properties
  hold for every value of it, and the bound for every value that is a number of chunks,
  that is, not negative.
\<close>

theorem search_similar_chunks_ranked:
  "(\<forall>r\<in>set (search_similar_chunks self query top_k). 0 < similarity r)
   \<and> sorted_wrt (\<lambda>a b. similarity b \<le> similarity a) (search_similar_chunks self query top_k)
   \<and> (0 \<le> top_k \<longrightarrow> int (length (search_similar_chunks self query top_k)) \<le> top_k)"
proof -
  let ?q = "tfidf_vector (idf_scores self) (calculate_tf (tokenize query))"
  let ?c = "collect_similar (chunks self) ?q 0 (tfidf_matrix self) []"
  consider (empty) "search_similar_chunks self query top_k = []"
    | (found) sims where "?c = Inr sims"
        "search_similar_chunks self query top_k = slice (sort_key (\<lambda>x. - similarity x) sims) 0 top_k"
  proof (cases "chunks self = [] \<or> tfidf_matrix self = [] \<or> tokenize query = [] \<or> ?q = []")
    case True
    then have "search_similar_chunks self query top_k = []"
      by (auto simp: search_similar_chunks_def Let_def)
    then show ?thesis by (rule empty)
  next
    case False
    show ?thesis
    proof (cases ?c)
      case (Inl e)
      with False have "search_similar_chunks self query top_k = []"
        by (simp add: search_similar_chunks_def Let_def)
      then show ?thesis by (rule empty)
    next
      case (Inr sims)
      with False have "search_similar_chunks self query top_k
                         = slice (sort_key (\<lambda>x. - similarity x) sims) 0 top_k"
        by (simp add: search_similar_chunks_def Let_def)
      with Inr show ?thesis by (rule found)
    qed
  qed
  then show ?thesis
  proof cases
    case empty
    then show ?thesis by simp
  next
    case found
    let ?s = "sort_key (\<lambda>x. - similarity x) sims"
    let ?n = "slice_bound (length ?s) top_k"
    have res: "search_similar_chunks self query top_k = take ?n ?s"
      using found(2) by (simp only: slice_from_start)
    from collect_similar_positive [OF found(1)] have "\<forall>r\<in>set ?s. 0 < similarity r" by simp
    then have pos: "\<forall>r\<in>set (take ?n ?s). 0 < similarity r"
      by (meson in_set_takeD)
    have ord: "sorted_wrt (\<lambda>a b. similarity b \<le> similarity a) (take ?n ?s)"
      by (intro sorted_wrt_take sorted_by_similarity)
    have len: "int (length (take ?n ?s)) \<le> top_k" if "0 \<le> top_k"
    proof -
      have "int (length (take ?n ?s)) \<le> int ?n" by simp
      also have "\<dots> \<le> top_k" using that by (rule slice_bound_nonneg)
      finally show ?thesis .
    qed
    from pos ord len show ?thesis unfolding res by blast
  qed
qed

theorem search_similar_chunks_ranked_witness:
  "(0::int) \<le> 3
   \<and> length (search_similar_chunks (store_index init three_chunks) ''gato'' 3) = 2
   \<and> int (length (search_similar_chunks (store_index init three_chunks) ''gato'' 3)) \<le> 3
   \<and> 0 < similarity (hd (search_similar_chunks (store_index init three_chunks) ''gato'' 3))"
proof -
  let ?r = "search_similar_chunks (store_index init three_chunks) ''gato'' 3"
  have n: "length ?r = 2" by (rule search_gato_all)
  then have "?r \<noteq> []" by auto
  then have "hd ?r \<in> set ?r" by simp
  with search_similar_chunks_ranked [of "store_index init three_chunks" "''gato''" 3] n
  show ?thesis by simp
qed

subsection \<open>The claims about the store\<close>

text \<open>
  C9. Importing the snapshot that \<open>export_data\<close> returns, into the processor that exported
  it or into any other one, succeeds and gives the processor that exported: the same
  documents, chunks in the same order, vectors, vocabulary, IDF table and statistics.
\<close>

theorem import_export_round_trip:
  "import_data other (export_data self now) = (self, True)"
  by (simp add: import_data_def export_data_def get_default_def)

text \<open>
  C1, as stated: a snapshot that lacks fields is refused, the processor keeps its state and
  the call reports failure. It fails on the snapshot with no field: the call reports
  success and the processor is reset to the empty one.
\<close>

theorem import_missing_fields_accepted:
  "snap_chunks no_fields = None \<and> import_data loaded no_fields = (init, True) \<and> init \<noteq> loaded"
  by (simp add: import_data_def no_fields_def loaded_def init_def get_default_def)

text \<open>
  C1, amended: \<open>import_data\<close> reports success for every snapshot; a field that the
  snapshot lacks is set to its default (no documents, no chunks, no vectors, empty
  vocabulary, empty IDF table, zero statistics) and a field that it has is copied.
\<close>

theorem import_data_defaults:
  "snd (import_data self data) = True
   \<and> (snap_documents data = None \<longrightarrow> documents (fst (import_data self data)) = [])
   \<and> (snap_chunks data = None \<longrightarrow> chunks (fst (import_data self data)) = [])
   \<and> (snap_tfidf_matrix data = None \<longrightarrow> tfidf_matrix (fst (import_data self data)) = [])
   \<and> (snap_vocabulary data = None \<longrightarrow> vocabulary (fst (import_data self data)) = [])
   \<and> (snap_idf_scores data = None \<longrightarrow> idf_scores (fst (import_data self data)) = [])
   \<and> (snap_document_stats data = None \<longrightarrow>
        document_stats (fst (import_data self data)) = empty_stats)
   \<and> (\<forall>v. snap_documents data = Some v \<longrightarrow> documents (fst (import_data self data)) = v)
   \<and> (\<forall>v. snap_chunks data = Some v \<longrightarrow> chunks (fst (import_data self data)) = v)
   \<and> (\<forall>v. snap_tfidf_matrix data = Some v \<longrightarrow> tfidf_matrix (fst (import_data self data)) = v)
   \<and> (\<forall>v. snap_vocabulary data = Some v \<longrightarrow> vocabulary (fst (import_data self data)) = v)
   \<and> (\<forall>v. snap_idf_scores data = Some v \<longrightarrow> idf_scores (fst (import_data self data)) = v)
   \<and> (\<forall>v. snap_document_stats data = Some v \<longrightarrow>
        document_stats (fst (import_data self data)) = v)"
  by (simp add: import_data_def get_default_def)

theorem import_data_defaults_witness:
  "snap_chunks (no_fields\<lparr>snap_idf_scores := Some [(''gato'', 0)]\<rparr>) = None
   \<and> snap_idf_scores (no_fields\<lparr>snap_idf_scores := Some [(''gato'', 0)]\<rparr>) = Some [(''gato'', 0)]
   \<and> import_data loaded (no_fields\<lparr>snap_idf_scores := Some [(''gato'', 0)]\<rparr>)
       = (init\<lparr>idf_scores := [(''gato'', 0)]\<rparr>, True)"
  using import_data_defaults [of loaded "no_fields\<lparr>snap_idf_scores := Some [(''gato'', 0)]\<rparr>"]
  by (simp add: no_fields_def import_data_def get_default_def loaded_def init_def)

end
